theory Spec2Isabelle
  imports Complex_Main
begin

section \<open>Values of the Python run time\<close>

text \<open>
  The program is \<^verbatim>\<open>montecarlo.py\<close>: the classes \<^verbatim>\<open>Die\<close>, \<^verbatim>\<open>Game\<close> and
  \<^verbatim>\<open>Analyzer\<close>, written over numpy and pandas. Every method becomes a function that
  takes the object's state and returns the outcome (an exception as \<open>Inl\<close>) together
  with the state after the call.

  A float64 is a finite number, an infinity or NaN. A result too large for a float64
  is an infinity, as in IEEE arithmetic; below that the result is taken exact: rounding
  to 53 bits and the sign of zero are left out of the model. A sum within rounding
  distance of the largest float64 can therefore be finite here and infinite in float64;
  what is proved of rolls that succeed keeps the sum a factor of two below it.
\<close>

datatype pyerror = TypeError | ValueError | IndexError | AttributeError | OverflowError

datatype npfloat = Fin real | PInf | NInf | NaN

fun isnan :: "npfloat \<Rightarrow> bool" where
  "isnan NaN = True"
| "isnan _ = False"

fun fneg :: "npfloat \<Rightarrow> npfloat" where
  "fneg (Fin a) = Fin (- a)"
| "fneg PInf = NInf"
| "fneg NInf = PInf"
| "fneg NaN = NaN"

text \<open>
  The result of an operation whose exact value is \<open>x\<close>: from \<open>2^1024 - 2^970\<close> on, half
  a unit in the last place above the largest float64, rounding gives an infinity.
\<close>

definition overflow :: "real \<Rightarrow> npfloat" where
  "overflow x =
     (if 2 ^ 1024 - 2 ^ 970 \<le> x then PInf
      else if x \<le> - (2 ^ 1024 - 2 ^ 970) then NInf
      else Fin x)"

fun fadd :: "npfloat \<Rightarrow> npfloat \<Rightarrow> npfloat" where
  "fadd NaN _ = NaN"
| "fadd _ NaN = NaN"
| "fadd PInf NInf = NaN"
| "fadd NInf PInf = NaN"
| "fadd PInf _ = PInf"
| "fadd _ PInf = PInf"
| "fadd NInf _ = NInf"
| "fadd _ NInf = NInf"
| "fadd (Fin a) (Fin b) = overflow (a + b)"

definition fsub :: "npfloat \<Rightarrow> npfloat \<Rightarrow> npfloat" where
  "fsub a b = fadd a (fneg b)"

text \<open>Division never raises on an array: \<open>0 / 0\<close> is NaN and \<open>x / 0\<close> an infinity.\<close>

fun fdiv :: "npfloat \<Rightarrow> npfloat \<Rightarrow> npfloat" where
  "fdiv NaN _ = NaN"
| "fdiv _ NaN = NaN"
| "fdiv (Fin a) (Fin b) =
     (if b = 0 then (if a = 0 then NaN else if 0 < a then PInf else NInf)
      else overflow (a / b))"
| "fdiv (Fin a) _ = Fin 0"
| "fdiv PInf (Fin b) = (if 0 \<le> b then PInf else NInf)"
| "fdiv NInf (Fin b) = (if 0 \<le> b then NInf else PInf)"
| "fdiv _ _ = NaN"

text \<open>The comparison \<open><\<close>: false as soon as one side is NaN.\<close>

fun fless :: "npfloat \<Rightarrow> npfloat \<Rightarrow> bool" where
  "fless NaN _ = False"
| "fless _ NaN = False"
| "fless (Fin a) (Fin b) = (a < b)"
| "fless NInf NInf = False"
| "fless NInf _ = True"
| "fless _ NInf = False"
| "fless PInf _ = False"
| "fless _ PInf = True"

fun fabs :: "npfloat \<Rightarrow> npfloat" where
  "fabs (Fin a) = Fin \<bar>a\<bar>"
| "fabs PInf = PInf"
| "fabs NInf = PInf"
| "fabs NaN = NaN"

section \<open>The numpy and pandas operations the program calls\<close>

text \<open>\<^verbatim>\<open>weights.sum()\<close>: the sum of an array, \<open>0.0\<close> for the empty one.\<close>

definition np_sum :: "npfloat list \<Rightarrow> npfloat" where
  "np_sum ws = foldl fadd (Fin 0) ws"

text \<open>
  \<^verbatim>\<open>p.cumsum()\<close>, the running sums, and the compensated sum \<^verbatim>\<open>kahan_sum\<close> that
  \<^verbatim>\<open>numpy.random.choice\<close> takes of \<open>p\<close>: it starts from \<open>p[0]\<close> with the
  compensation \<open>0\<close> and adds the other entries in turn. Over an empty \<open>p\<close> numpy reads
  \<open>p[0]\<close> all the same; the sum is taken as \<open>0\<close> there, which like any value read
  ends the call of \<^verbatim>\<open>choice\<close> in an exception.
\<close>

fun cumsum_from :: "npfloat \<Rightarrow> npfloat list \<Rightarrow> npfloat list" where
  "cumsum_from acc [] = []"
| "cumsum_from acc (x # xs) = fadd acc x # cumsum_from (fadd acc x) xs"

definition cumsum :: "npfloat list \<Rightarrow> npfloat list" where
  "cumsum p = cumsum_from (Fin 0) p"

fun kahan_loop :: "npfloat \<Rightarrow> npfloat \<Rightarrow> npfloat list \<Rightarrow> npfloat" where
  "kahan_loop s c [] = s"
| "kahan_loop s c (x # xs) =
     (let y = fsub x c; t = fadd s y in kahan_loop t (fsub (fsub t s) y) xs)"

definition kahan_sum :: "npfloat list \<Rightarrow> npfloat" where
  "kahan_sum p = (case p of [] \<Rightarrow> Fin 0 | x # xs \<Rightarrow> kahan_loop x (Fin 0) xs)"

text \<open>
  The generator. Its state is the sequence of 53-bit integers it has still to give; a
  uniform sample is such an integer over \<open>2^53\<close>, so it lies in \<open>[0, 1)\<close>.
  \<^verbatim>\<open>random_sample(n)\<close> takes the next \<open>n\<close> and leaves the rest.
\<close>

type_synonym rng = "nat \<Rightarrow> nat"

definition uniform :: "nat \<Rightarrow> npfloat" where
  "uniform k = Fin (real (k mod 2 ^ 53) / 2 ^ 53)"

definition random_sample :: "nat \<Rightarrow> rng \<Rightarrow> npfloat list \<times> rng" where
  "random_sample n g = (map (\<lambda>i. uniform (g i)) [0..<n], \<lambda>i. g (i + n))"

text \<open>
  \<^verbatim>\<open>cdf.searchsorted(u, side='right')\<close>: the first position whose entry is greater
  than \<open>u\<close>.
\<close>

definition searchsorted_right :: "npfloat list \<Rightarrow> npfloat \<Rightarrow> nat" where
  "searchsorted_right cdf u = length (takeWhile (\<lambda>c. \<not> fless u c) cdf)"

text \<open>The tolerance of the check that \<open>p\<close> sums to one: the square root of the float64 epsilon.\<close>

definition atol :: npfloat where
  "atol = Fin (1 / 2 ^ 26)"

text \<open>
  \<^verbatim>\<open>numpy.random.choice(a, size=n, p=p)\<close>, sampling with replacement: the checks of
  \<open>a\<close> and \<open>p\<close> in the order numpy makes them (an empty \<open>a\<close> with samples asked for,
  sizes that differ, a NaN sum, a negative entry, a sum that is not one: each raises
  \<^verbatim>\<open>ValueError\<close>), then inversion of the cumulative distribution \<^verbatim>\<open>cdf\<close>, where
  \<^verbatim>\<open>cdf[-1]\<close> and \<^verbatim>\<open>a[idx]\<close> raise \<^verbatim>\<open>IndexError\<close> out of range. The array of
  \<open>n\<close> samples is allocated by \<^verbatim>\<open>random_sample\<close>: a negative size raises
  \<^verbatim>\<open>ValueError\<close>, and so does a size of \<open>2^60\<close> or more, whose eight bytes per sample
  no longer fit a C \<^verbatim>\<open>intp\<close>. Running out of memory below that size is outside the
  model. The generator moves only when samples are drawn.
\<close>

definition np_random_choice ::
  "'a list \<Rightarrow> int \<Rightarrow> npfloat list \<Rightarrow> rng \<Rightarrow> (pyerror + 'a list) \<times> rng" where
  "np_random_choice a n p g =
     (if a = [] \<and> n \<noteq> 0 then (Inl ValueError, g)
      else if length p \<noteq> length a then (Inl ValueError, g)
      else if isnan (kahan_sum p) then (Inl ValueError, g)
      else if list_ex (\<lambda>x. fless x (Fin 0)) p then (Inl ValueError, g)
      else if fless atol (fabs (fsub (kahan_sum p) (Fin 1))) then (Inl ValueError, g)
      else if cumsum p = [] then (Inl IndexError, g)
      else if n < 0 \<or> 2 ^ 60 \<le> n then (Inl ValueError, g)
      else
        (let cdf = map (\<lambda>c. fdiv c (last (cumsum p))) (cumsum p);
             (us, g') = random_sample (nat n) g;
             idx = map (searchsorted_right cdf) us
         in if list_all (\<lambda>i. i < length a) idx then (Inr (map (nth a) idx), g')
            else (Inl IndexError, g')))"

text \<open>
  A data frame: the column labels and the rows of cells. The row index is the position
  of the row (\<^verbatim>\<open>roll_number\<close> for a table of results).
\<close>

record ('c, 'v) dataframe =
  df_columns :: "'c list"
  df_rows :: "'v list list"

text \<open>
  \<^verbatim>\<open>pd.DataFrame(d)\<close> for a dict \<open>d\<close> from column label to list: columns of unequal
  length raise \<^verbatim>\<open>ValueError\<close>; the frame has as many rows as its columns are long,
  and none when there is no column.
\<close>

definition pd_DataFrame :: "('c \<times> 'v list) list \<Rightarrow> pyerror + ('c, 'v) dataframe" where
  "pd_DataFrame d =
     (case d of
        [] \<Rightarrow> Inr \<lparr>df_columns = [], df_rows = []\<rparr>
      | c # cs \<Rightarrow>
          if list_ex (\<lambda>c'. length (snd c') \<noteq> length (snd c)) cs then Inl ValueError
          else Inr \<lparr>df_columns = map fst d,
                    df_rows = map (\<lambda>i. map (\<lambda>col. snd col ! i) d) [0..<length (snd c)]\<rparr>)"

text \<open>
  \<^verbatim>\<open>pd.unique\<close>: the distinct values in the order in which each is first met.
\<close>

fun unique_from :: "'a list \<Rightarrow> 'a list \<Rightarrow> 'a list" where
  "unique_from seen [] = []"
| "unique_from seen (x # xs) =
     (if x \<in> set seen then unique_from seen xs else x # unique_from (x # seen) xs)"

definition pd_unique :: "'a list \<Rightarrow> 'a list" where
  "pd_unique xs = unique_from [] xs"

text \<open>
  \<^verbatim>\<open>Series.value_counts()\<close>: one entry per distinct value with the number of its
  occurrences, by descending count; equal counts keep the order of first occurrence.
\<close>

definition value_counts :: "'k list \<Rightarrow> ('k \<times> nat) list" where
  "value_counts xs =
     sort_key (\<lambda>kc. - int (snd kc)) (map (\<lambda>k. (k, count_list xs k)) (pd_unique xs))"

section \<open>Die\<close>

text \<open>
  \<^verbatim>\<open>self._df\<close>: the frame indexed by face with the one column \<^verbatim>\<open>weight\<close>, as the
  list of its rows.
\<close>

record 'a die =
  df :: "('a \<times> npfloat) list"

datatype 'a faces_arg = NdArray "'a list" | NotNdArray

definition Die_init :: "'a faces_arg \<Rightarrow> pyerror + 'a die" where
  "Die_init faces =
     (case faces of
        NotNdArray \<Rightarrow> Inl TypeError
      | NdArray fs \<Rightarrow>
          if card (set fs) \<noteq> length fs then Inl ValueError
          else Inr \<lparr>df = map (\<lambda>f. (f, Fin 1)) fs\<rparr>)"

text \<open>
  The argument \<^verbatim>\<open>new_weight\<close> of \<^verbatim>\<open>change_weight\<close>, by what \<^verbatim>\<open>float()\<close> does with
  it: it returns a float (for an int, a float, a bool, a numeric string such as
  \<^verbatim>\<open>'nan'\<close>) or it raises: \<^verbatim>\<open>ValueError\<close> for any other string, \<^verbatim>\<open>TypeError\<close> for
  \<^verbatim>\<open>None\<close> or a list, \<^verbatim>\<open>OverflowError\<close> for an int too large for a float, such as
  \<^verbatim>\<open>10**400\<close>.
\<close>

datatype weight_arg = Converts npfloat | Raises pyerror

fun py_float :: "weight_arg \<Rightarrow> pyerror + npfloat" where
  "py_float (Converts x) = Inr x"
| "py_float (Raises e) = Inl e"

text \<open>\<^verbatim>\<open>self._df.at[face, 'weight'] = w\<close>\<close>

definition at_set :: "('a \<times> npfloat) list \<Rightarrow> 'a \<Rightarrow> npfloat \<Rightarrow> ('a \<times> npfloat) list" where
  "at_set rows face w = map (\<lambda>(f, v). if f = face then (f, w) else (f, v)) rows"

definition change_weight ::
  "'a die \<Rightarrow> 'a \<Rightarrow> weight_arg \<Rightarrow> (pyerror + unit) \<times> 'a die" where
  "change_weight self face new_weight =
     (if face \<notin> set (map fst (df self)) then (Inl IndexError, self)
      else
        (case py_float new_weight of
           Inl e \<Rightarrow> (if e = ValueError then (Inl TypeError, self) else (Inl e, self))
         | Inr w \<Rightarrow> (Inr (), self\<lparr>df := at_set (df self) face w\<rparr>)))"

definition roll :: "'a die \<Rightarrow> int \<Rightarrow> rng \<Rightarrow> (pyerror + 'a list) \<times> 'a die \<times> rng" where
  "roll self n g =
     (let faces = map fst (df self);
          weights = map snd (df self);
          probabilities = map (\<lambda>w. fdiv w (np_sum weights)) weights;
          (r, g') = np_random_choice faces n probabilities g
      in (r, self, g'))"

definition Die_show :: "'a die \<Rightarrow> ('a \<times> npfloat) list" where
  "Die_show self = df self"

section \<open>Game\<close>

text \<open>
  \<^verbatim>\<open>self.dice\<close> and \<^verbatim>\<open>self._results\<close>. The game holds its dice as they are when a
  method is called: a \<^verbatim>\<open>change_weight\<close> made on a die between two calls is the game
  with that die replaced.
\<close>

record 'a game =
  dice :: "'a die list"
  results :: "(nat, 'a) dataframe option"

definition Game_init :: "'a die list \<Rightarrow> 'a game" where
  "Game_init ds = \<lparr>dice = ds, results = None\<rparr>"

text \<open>
  The loop of \<^verbatim>\<open>play\<close>: every die is rolled in turn, and the first roll that raises
  ends the loop.
\<close>

fun roll_all ::
  "'a die list \<Rightarrow> int \<Rightarrow> rng \<Rightarrow> (pyerror + 'a list list) \<times> 'a die list \<times> rng" where
  "roll_all [] n g = (Inr [], [], g)"
| "roll_all (d # ds) n g =
     (case roll d n g of
        (Inl e, d', g') \<Rightarrow> (Inl e, d' # ds, g')
      | (Inr xs, d', g') \<Rightarrow>
          (case roll_all ds n g' of
             (Inl e, ds', g'') \<Rightarrow> (Inl e, d' # ds', g'')
           | (Inr xss, ds', g'') \<Rightarrow> (Inr (xs # xss), d' # ds', g'')))"

definition play :: "'a game \<Rightarrow> int \<Rightarrow> rng \<Rightarrow> (pyerror + unit) \<times> 'a game \<times> rng" where
  "play self n_rolls g =
     (case roll_all (dice self) n_rolls g of
        (Inl e, ds, g') \<Rightarrow> (Inl e, self\<lparr>dice := ds\<rparr>, g')
      | (Inr all_results, ds, g') \<Rightarrow>
          (case pd_DataFrame (zip [0..<length all_results] all_results) of
             Inl e \<Rightarrow> (Inl e, self\<lparr>dice := ds\<rparr>, g')
           | Inr t \<Rightarrow> (Inr (), self\<lparr>dice := ds, results := Some t\<rparr>, g')))"

text \<open>
  What \<^verbatim>\<open>show\<close> returns: the wide table, or the narrow one, whose rows are indexed by
  (roll number, die number) and hold the one cell \<^verbatim>\<open>outcome\<close>.
\<close>

datatype 'a shown = Wide "(nat, 'a) dataframe" | Narrow "((nat \<times> nat) \<times> 'a) list"

definition stack :: "(nat, 'a) dataframe \<Rightarrow> ((nat \<times> nat) \<times> 'a) list" where
  "stack t =
     concat (map (\<lambda>(i, row). map (\<lambda>(j, v). ((i, j), v)) (zip (df_columns t) row))
                 (zip [0..<length (df_rows t)] (df_rows t)))"

definition Game_show :: "'a game \<Rightarrow> string \<Rightarrow> pyerror + 'a shown option" where
  "Game_show self form =
     (case results self of
        None \<Rightarrow> Inr None
      | Some r \<Rightarrow>
          if form = ''wide'' then Inr (Some (Wide r))
          else if form = ''narrow'' then Inr (Some (Narrow (stack r)))
          else Inl ValueError)"

section \<open>Analyzer\<close>

record 'a analyzer =
  game :: "'a game"
  df_results :: "'a shown option"
  jackpot_count :: "nat option"
  face_counts :: "('a, nat) dataframe option"
  combo_counts :: "('a list \<times> nat) list option"
  permutation_counts :: "('a list \<times> nat) list option"

datatype 'a analyzer_arg = GameObj "'a game" | NotGame

definition Analyzer_init :: "'a analyzer_arg \<Rightarrow> pyerror + 'a analyzer" where
  "Analyzer_init arg =
     (case arg of
        NotGame \<Rightarrow> Inl ValueError
      | GameObj g \<Rightarrow>
          (case Game_show g ''wide'' of
             Inl e \<Rightarrow> Inl e
           | Inr r \<Rightarrow>
               Inr \<lparr>game = g, df_results = r, jackpot_count = None, face_counts = None,
                    combo_counts = None, permutation_counts = None\<rparr>))"

text \<open>
  The rows of a frame as \<^verbatim>\<open>apply(..., axis=1)\<close> and \<^verbatim>\<open>iterrows()\<close> go through them.
  On \<^verbatim>\<open>None\<close> the attribute lookup of \<^verbatim>\<open>apply\<close>, \<^verbatim>\<open>values\<close> raises
  \<^verbatim>\<open>AttributeError\<close>.
\<close>

fun frame_rows :: "'a shown \<Rightarrow> 'a list list" where
  "frame_rows (Wide t) = df_rows t"
| "frame_rows (Narrow nr) = map (\<lambda>iv. [snd iv]) nr"

definition jackpot :: "'a analyzer \<Rightarrow> (pyerror + nat) \<times> 'a analyzer" where
  "jackpot self =
     (case df_results self of
        None \<Rightarrow> (Inl AttributeError, self)
      | Some t \<Rightarrow>
          (let c = length (filter (\<lambda>x. card (set x) = 1) (frame_rows t))
           in (Inr c, self\<lparr>jackpot_count := Some c\<rparr>)))"

definition face_counts_per_roll ::
  "'a analyzer \<Rightarrow> (pyerror + ('a, nat) dataframe) \<times> 'a analyzer" where
  "face_counts_per_roll self =
     (case df_results self of
        None \<Rightarrow> (Inl AttributeError, self)
      | Some t \<Rightarrow>
          (let unique_faces = pd_unique (concat (frame_rows t));
               fc = \<lparr>df_columns = unique_faces,
                     df_rows = map (\<lambda>row. map (\<lambda>face. count_list row face) unique_faces)
                                   (frame_rows t)\<rparr>
           in (Inr fc, self\<lparr>face_counts := Some fc\<rparr>)))"

definition combo ::
  "('a::linorder) analyzer \<Rightarrow> (pyerror + ('a list \<times> nat) list) \<times> 'a analyzer" where
  "combo self =
     (case df_results self of
        None \<Rightarrow> (Inl AttributeError, self)
      | Some t \<Rightarrow>
          (let combo_list = map (\<lambda>x. sort x) (frame_rows t);
               cc = value_counts combo_list
           in (Inr cc, self\<lparr>combo_counts := Some cc\<rparr>)))"

definition permutation ::
  "'a analyzer \<Rightarrow> (pyerror + ('a list \<times> nat) list) \<times> 'a analyzer" where
  "permutation self =
     (case df_results self of
        None \<Rightarrow> (Inl AttributeError, self)
      | Some t \<Rightarrow>
          (let perm_list = map (\<lambda>x. x) (frame_rows t);
               pc = value_counts perm_list
           in (Inr pc, self\<lparr>permutation_counts := Some pc\<rparr>)))"

section \<open>Dice whose weights the data model allows\<close>

text \<open>
  The weights the specification's data model speaks of, kept clear of overflow: every
  weight a finite number that is not negative, and their sum positive and at most
  \<open>2^1023\<close>. The bound leaves a factor of two below the largest float64, so that no
  rounding on the way can turn the float64 sum into an infinity.
\<close>

fun nonneg_finite :: "npfloat \<Rightarrow> bool" where
  "nonneg_finite (Fin r) = (0 \<le> r)"
| "nonneg_finite _ = False"

definition rollable :: "'a die \<Rightarrow> bool" where
  "rollable d =
     (list_all nonneg_finite (map snd (df d)) \<and>
      fless (Fin 0) (np_sum (map snd (df d))) \<and>
      \<not> fless (Fin (2 ^ 1023)) (np_sum (map snd (df d))))"

section \<open>Die.change_weight\<close>

lemma map_fst_at_set: "map fst (at_set rows face w) = map fst rows"
  by (induction rows) (auto simp: at_set_def)

lemma map_of_at_set_same:
  "face \<in> set (map fst rows) \<Longrightarrow> map_of (at_set rows face w) face = Some w"
  by (induction rows) (auto simp: at_set_def)

lemma map_of_at_set_other:
  "f \<noteq> face \<Longrightarrow> map_of (at_set rows face w) f = map_of rows f"
  by (induction rows) (auto simp: at_set_def)

text \<open>
  C7, as the code has it: for a face of the die and a weight that \<^verbatim>\<open>float()\<close> converts
  to a float, after \<^verbatim>\<open>change_weight\<close> the snapshot \<^verbatim>\<open>show()\<close> holds that float at the
  face, every other face keeps its weight and the faces keep their order. A face that is
  not in the die raises \<^verbatim>\<open>IndexError\<close>; for a face of the die, a weight that is not
  numeric (\<^verbatim>\<open>float()\<close> raises \<^verbatim>\<open>ValueError\<close> or \<^verbatim>\<open>TypeError\<close>) raises
  \<^verbatim>\<open>TypeError\<close>. Whenever the call raises, the die is unchanged.
\<close>

theorem change_weight_frame:
  "(face \<in> set (map fst (df d)) \<longrightarrow>
      (\<forall>w. py_float a = Inr w \<longrightarrow>
         (\<exists>d'. change_weight d face a = (Inr (), d') \<and>
               map_of (Die_show d') face = Some w \<and>
               (\<forall>f. f \<noteq> face \<longrightarrow> map_of (Die_show d') f = map_of (Die_show d) f) \<and>
               map fst (Die_show d') = map fst (Die_show d)))) \<and>
   (face \<notin> set (map fst (df d)) \<longrightarrow> change_weight d face a = (Inl IndexError, d)) \<and>
   (face \<in> set (map fst (df d)) \<longrightarrow>
      py_float a = Inl ValueError \<or> py_float a = Inl TypeError \<longrightarrow>
      change_weight d face a = (Inl TypeError, d)) \<and>
   (\<forall>e. fst (change_weight d face a) = Inl e \<longrightarrow> snd (change_weight d face a) = d)"
proof (intro conjI impI allI)
  fix w
  assume "face \<in> set (map fst (df d))" and "py_float a = Inr w"
  then show "\<exists>d'. change_weight d face a = (Inr (), d') \<and>
               map_of (Die_show d') face = Some w \<and>
               (\<forall>f. f \<noteq> face \<longrightarrow> map_of (Die_show d') f = map_of (Die_show d) f) \<and>
               map fst (Die_show d') = map fst (Die_show d)"
    by (simp add: change_weight_def Die_show_def map_fst_at_set map_of_at_set_same
        map_of_at_set_other)
next
  assume "face \<notin> set (map fst (df d))"
  then show "change_weight d face a = (Inl IndexError, d)"
    by (simp add: change_weight_def)
next
  assume "face \<in> set (map fst (df d))"
    and "py_float a = Inl ValueError \<or> py_float a = Inl TypeError"
  then show "change_weight d face a = (Inl TypeError, d)"
    by (auto simp: change_weight_def)
next
  fix e
  assume "fst (change_weight d face a) = Inl e"
  then show "snd (change_weight d face a) = d"
    by (cases "py_float a") (auto simp: change_weight_def split: if_splits)
qed

theorem change_weight_frame_witness:
  "change_weight \<lparr>df = [(1::nat, Fin 1), (2, Fin 1), (3, Fin 1)]\<rparr> 2 (Converts (Fin 2)) =
     (Inr (), \<lparr>df = [(1, Fin 1), (2, Fin 2), (3, Fin 1)]\<rparr>) \<and>
   change_weight \<lparr>df = [(1::nat, Fin 1), (2, Fin 1), (3, Fin 1)]\<rparr> 7 (Converts (Fin 2)) =
     (Inl IndexError, \<lparr>df = [(1, Fin 1), (2, Fin 1), (3, Fin 1)]\<rparr>) \<and>
   change_weight \<lparr>df = [(1::nat, Fin 1), (2, Fin 1), (3, Fin 1)]\<rparr> 2 (Raises ValueError) =
     (Inl TypeError, \<lparr>df = [(1, Fin 1), (2, Fin 1), (3, Fin 1)]\<rparr>) \<and>
   change_weight \<lparr>df = [(1::nat, Fin 1), (2, Fin 1), (3, Fin 1)]\<rparr> 2 (Raises TypeError) =
     (Inl TypeError, \<lparr>df = [(1, Fin 1), (2, Fin 1), (3, Fin 1)]\<rparr>)"
  using change_weight_frame [of 2 "\<lparr>df = [(1::nat, Fin 1), (2, Fin 1), (3, Fin 1)]\<rparr>" "Converts (Fin 2)"]
    change_weight_frame [of 7 "\<lparr>df = [(1::nat, Fin 1), (2, Fin 1), (3, Fin 1)]\<rparr>" "Converts (Fin 2)"]
    change_weight_frame [of 2 "\<lparr>df = [(1::nat, Fin 1), (2, Fin 1), (3, Fin 1)]\<rparr>" "Raises ValueError"]
    change_weight_frame [of 2 "\<lparr>df = [(1::nat, Fin 1), (2, Fin 1), (3, Fin 1)]\<rparr>" "Raises TypeError"]
  by (simp add: change_weight_def at_set_def)

text \<open>
  The claim C7 as the specification states it fails on the weight \<^verbatim>\<open>10**400\<close>, an
  integer and so a real number: \<^verbatim>\<open>float()\<close> raises \<^verbatim>\<open>OverflowError\<close>, which the
  handler for \<^verbatim>\<open>ValueError\<close> lets through, so the weight is not stored and what is
  raised is no \<^verbatim>\<open>TypeError\<close>.
\<close>

theorem change_weight_overflow_counterexample:
  "py_float (Raises OverflowError) = Inl OverflowError \<and>
   change_weight \<lparr>df = [(1::nat, Fin 1), (2, Fin 1), (3, Fin 1)]\<rparr> 2 (Raises OverflowError) =
     (Inl OverflowError, \<lparr>df = [(1, Fin 1), (2, Fin 1), (3, Fin 1)]\<rparr>)"
  by (simp add: change_weight_def)

text \<open>
  C10: \<^verbatim>\<open>change_weight\<close> checks no range. For a face of the die and any float that
  \<^verbatim>\<open>float()\<close> returns (a negative number, zero and NaN among them) the call succeeds
  and the snapshot holds that very value at the face.
\<close>

theorem change_weight_no_range_check:
  "face \<in> set (map fst (df d)) \<Longrightarrow>
     change_weight d face (Converts x) = (Inr (), d\<lparr>df := at_set (df d) face x\<rparr>) \<and>
     map_of (Die_show (snd (change_weight d face (Converts x)))) face = Some x"
  by (simp add: change_weight_def Die_show_def map_of_at_set_same)

theorem change_weight_no_range_check_witness:
  "map_of (Die_show (snd (change_weight \<lparr>df = [(1::nat, Fin 1), (2, Fin 1)]\<rparr> 2 (Converts (Fin (- 5)))))) 2
     = Some (Fin (- 5)) \<and>
   map_of (Die_show (snd (change_weight \<lparr>df = [(1::nat, Fin 1), (2, Fin 1)]\<rparr> 2 (Converts (Fin 0))))) 2
     = Some (Fin 0) \<and>
   map_of (Die_show (snd (change_weight \<lparr>df = [(1::nat, Fin 1), (2, Fin 1)]\<rparr> 2 (Converts NaN)))) 2
     = Some NaN"
proof -
  have h: "(2::nat) \<in> set (map fst (df \<lparr>df = [(1::nat, Fin 1), (2, Fin 1)]\<rparr>))" by simp
  show ?thesis
    using change_weight_no_range_check [OF h, of "Fin (- 5)"]
      change_weight_no_range_check [OF h, of "Fin 0"]
      change_weight_no_range_check [OF h, of NaN]
    by (simp add: Die_show_def at_set_def)
qed

section \<open>Sums of finite weights\<close>

lemma overflow_Fin: "\<bar>x\<bar> \<le> 2 ^ 1023 \<Longrightarrow> overflow x = Fin x"
proof -
  assume x: "\<bar>x\<bar> \<le> 2 ^ 1023"
  have "(2::real) ^ 1023 < 2 ^ 1024 - 2 ^ 970" by simp
  with x have "x < 2 ^ 1024 - 2 ^ 970" and "- (2 ^ 1024 - 2 ^ 970) < x" by linarith+
  then show ?thesis by (simp add: overflow_def)
qed

lemma overflow_eq_Fin: "overflow x = Fin s \<Longrightarrow> s = x"
  by (auto simp: overflow_def split: if_splits)

lemma fadd_eq_Fin: "fadd a b = Fin s \<Longrightarrow> \<exists>x y. a = Fin x \<and> b = Fin y \<and> s = x + y"
  by (cases a; cases b) (auto dest: overflow_eq_Fin)

lemma foldl_fadd_eq_Fin:
  "foldl fadd a ws = Fin s \<Longrightarrow> \<exists>x rs. a = Fin x \<and> ws = map Fin rs \<and> s = x + sum_list rs"
proof (induction ws arbitrary: a)
  case Nil
  then show ?case by simp
next
  case (Cons w ws)
  from Cons.prems have f: "foldl fadd (fadd a w) ws = Fin s" by simp
  from Cons.IH [OF f] obtain t rs where
    t: "fadd a w = Fin t" and rs: "ws = map Fin rs" and s: "s = t + sum_list rs"
    by blast
  from fadd_eq_Fin [OF t] obtain x y where xy: "a = Fin x" "w = Fin y" "t = x + y" by blast
  from rs xy(2) have "w # ws = map Fin (y # rs)" by simp
  moreover from s xy(3) have "s = x + sum_list (y # rs)" by simp
  ultimately have "a = Fin x \<and> w # ws = map Fin (y # rs) \<and> s = x + sum_list (y # rs)"
    using xy(1) by simp
  then show ?case by (intro exI [where x = x] exI [where x = "y # rs"])
qed

lemma np_sum_eq_Fin: "np_sum ws = Fin s \<Longrightarrow> \<exists>rs. ws = map Fin rs \<and> sum_list rs = s"
proof -
  assume "np_sum ws = Fin s"
  then have "foldl fadd (Fin 0) ws = Fin s" by (simp add: np_sum_def overflow_def)
  from foldl_fadd_eq_Fin [OF this] obtain x rs where
    "Fin 0 = Fin x" "ws = map Fin rs" "s = x + sum_list rs" by blast
  then have "ws = map Fin rs \<and> sum_list rs = s" by simp
  then show ?thesis by blast
qed

lemma list_all_nonneg_finite:
  "list_all nonneg_finite ws \<Longrightarrow> \<exists>rs. ws = map Fin rs \<and> (\<forall>r\<in>set rs. 0 \<le> r)"
proof (induction ws)
  case Nil
  then show ?case by simp
next
  case (Cons w ws)
  then obtain rs where rs: "ws = map Fin rs" "\<forall>r\<in>set rs. 0 \<le> r" by auto
  from Cons.prems obtain r where r: "w = Fin r" "0 \<le> r" by (cases w) auto
  with rs have "w # ws = map Fin (r # rs) \<and> (\<forall>x\<in>set (r # rs). 0 \<le> x)" by simp
  then show ?case by (rule exI)
qed

lemma member_le_sum_list_real:
  "\<forall>r\<in>set rs. 0 \<le> r \<Longrightarrow> x \<in> set rs \<Longrightarrow> x \<le> sum_list (rs :: real list)"
proof (induction rs)
  case Nil
  then show ?case by simp
next
  case (Cons r rs)
  then have "0 \<le> sum_list rs" by (simp add: sum_list_nonneg)
  with Cons show ?case by auto
qed

lemma kahan_loop_NaN: "kahan_loop NaN c xs = NaN"
  by (induction xs arbitrary: c) (auto simp: Let_def)

lemma kahan_step:
  assumes "0 \<le> s" and "0 \<le> r" and "s + r \<le> 2 ^ 1023"
  shows "fsub (Fin r) (Fin 0) = Fin r"
    and "fadd (Fin s) (Fin r) = Fin (s + r)"
    and "fsub (fsub (Fin (s + r)) (Fin s)) (Fin r) = Fin 0"
proof -
  from assms have r: "\<bar>r\<bar> \<le> 2 ^ 1023" and sr: "\<bar>s + r\<bar> \<le> 2 ^ 1023" by linarith+
  show "fsub (Fin r) (Fin 0) = Fin r"
    using overflow_Fin [OF r] by (simp add: fsub_def)
  show "fadd (Fin s) (Fin r) = Fin (s + r)"
    using overflow_Fin [OF sr] by simp
  have "fsub (Fin (s + r)) (Fin s) = Fin r"
    using overflow_Fin [OF r] by (simp add: fsub_def)
  moreover have "fsub (Fin r) (Fin r) = Fin 0"
    using overflow_Fin [of 0] by (simp add: fsub_def)
  ultimately show "fsub (fsub (Fin (s + r)) (Fin s)) (Fin r) = Fin 0" by simp
qed

lemma kahan_loop_Fin:
  "0 \<le> s \<Longrightarrow> \<forall>r\<in>set rs. 0 \<le> r \<Longrightarrow> s + sum_list rs \<le> 2 ^ 1023 \<Longrightarrow>
     kahan_loop (Fin s) (Fin 0) (map Fin rs) = Fin (s + sum_list rs)"
proof (induction rs arbitrary: s)
  case Nil
  then show ?case by simp
next
  case (Cons r rs)
  from Cons.prems have r: "0 \<le> r" and rest: "\<forall>x\<in>set rs. 0 \<le> x" by simp_all
  then have "0 \<le> sum_list rs" by (simp add: sum_list_nonneg)
  with Cons.prems have b: "s + r \<le> 2 ^ 1023" by simp
  note st = kahan_step [OF Cons.prems(1) r b]
  have "kahan_loop (Fin s) (Fin 0) (map Fin (r # rs)) =
        kahan_loop (Fin (s + r)) (Fin 0) (map Fin rs)"
    by (simp add: Let_def st del: fadd.simps)
  also have "\<dots> = Fin ((s + r) + sum_list rs)"
    using Cons.prems r by (intro Cons.IH rest) auto
  finally show ?case by (simp add: algebra_simps)
qed

lemma kahan_sum_Fin:
  "\<forall>r\<in>set rs. 0 \<le> r \<Longrightarrow> sum_list rs \<le> 2 ^ 1023 \<Longrightarrow>
     kahan_sum (map Fin rs) = Fin (sum_list rs)"
proof (cases rs)
  case Nil
  then show ?thesis by (simp add: kahan_sum_def)
next
  case (Cons r rs')
  assume "\<forall>r\<in>set rs. 0 \<le> r" and "sum_list rs \<le> 2 ^ 1023"
  with Cons have "kahan_loop (Fin r) (Fin 0) (map Fin rs') = Fin (r + sum_list rs')"
    by (intro kahan_loop_Fin) auto
  with Cons show ?thesis by (simp add: kahan_sum_def)
qed

lemma length_cumsum_from: "length (cumsum_from acc xs) = length xs"
  by (induction xs arbitrary: acc) auto

lemma cumsum_from_Nil_iff: "cumsum_from acc xs = [] \<longleftrightarrow> xs = []"
  by (cases xs) auto

lemma last_cumsum_from_Fin:
  "rs \<noteq> [] \<Longrightarrow> 0 \<le> a \<Longrightarrow> \<forall>r\<in>set rs. 0 \<le> r \<Longrightarrow> a + sum_list rs \<le> 2 ^ 1023 \<Longrightarrow>
     last (cumsum_from (Fin a) (map Fin rs)) = Fin (a + sum_list rs)"
proof (induction rs arbitrary: a)
  case Nil
  then show ?case by simp
next
  case (Cons r rs)
  from Cons.prems have r: "0 \<le> r" and rest: "\<forall>x\<in>set rs. 0 \<le> x" by simp_all
  then have "0 \<le> sum_list rs" by (simp add: sum_list_nonneg)
  with Cons.prems have b: "a + r \<le> 2 ^ 1023" by simp
  have step: "fadd (Fin a) (Fin r) = Fin (a + r)"
    by (rule kahan_step(2) [OF Cons.prems(2) r b])
  show ?case
  proof (cases rs)
    case Nil
    then show ?thesis by (simp add: step del: fadd.simps)
  next
    case (Cons r' rs')
    then have ne: "rs \<noteq> []" by simp
    have "last (cumsum_from (Fin (a + r)) (map Fin rs)) = Fin ((a + r) + sum_list rs)"
      using Cons.prems r by (intro Cons.IH ne rest) auto
    then show ?thesis
      using ne by (simp add: step cumsum_from_Nil_iff algebra_simps del: fadd.simps)
  qed
qed

lemma takeWhile_short:
  "xs \<noteq> [] \<Longrightarrow> \<not> P (last xs) \<Longrightarrow> length (takeWhile P xs) < length xs"
proof -
  assume ne: "xs \<noteq> []" and np: "\<not> P (last xs)"
  have "takeWhile P xs \<noteq> xs"
    using ne np by (auto simp: takeWhile_eq_all_conv)
  moreover have "takeWhile P xs = take (length (takeWhile P xs)) xs"
    by (rule takeWhile_eq_take)
  moreover have "length (takeWhile P xs) \<le> length xs"
    by (rule length_takeWhile_le)
  ultimately show ?thesis
    by (metis le_neq_implies_less take_all order_refl)
qed

lemma uniform_less_one: "fless (uniform k) (Fin 1)"
proof -
  have "k mod 2 ^ 53 < (2::nat) ^ 53" by simp
  then have "real (k mod 2 ^ 53) < 2 ^ 53"
    by (metis of_nat_less_iff of_nat_numeral of_nat_power)
  then show ?thesis by (simp add: uniform_def)
qed

lemma searchsorted_in_range:
  assumes "cdf \<noteq> []" and "last cdf = Fin 1"
  shows "searchsorted_right cdf (uniform k) < length cdf"
  unfolding searchsorted_right_def
  using assms uniform_less_one [of k] by (intro takeWhile_short) auto

lemma sum_list_divide: "sum_list (map (\<lambda>r. r / s) rs) = sum_list rs / (s::real)"
  by (induction rs) (auto simp: add_divide_distrib)

lemma np_random_choice_ok:
  assumes len: "length a = length ps"
    and nonneg: "\<forall>p\<in>set ps. 0 \<le> p"
    and one: "sum_list ps = 1"
    and n: "0 \<le> n" "n < 2 ^ 60"
  shows "\<exists>xs. np_random_choice a n (map Fin ps) g = (Inr xs, snd (random_sample (nat n) g)) \<and>
              length xs = nat n \<and> set xs \<subseteq> set a"
proof -
  let ?p = "map Fin ps"
  from one have ne: "ps \<noteq> []" by auto
  with len have a_ne: "a \<noteq> []" by auto
  have small: "sum_list ps \<le> 2 ^ 1023" unfolding one by simp
  have k: "kahan_sum ?p = Fin 1"
    using kahan_sum_Fin [OF nonneg small] one by simp
  have noneg: "\<not> list_ex (\<lambda>x. fless x (Fin 0)) ?p"
    using nonneg by (auto simp: list_ex_iff not_less)
  have "fsub (Fin 1) (Fin 1) = Fin 0"
    using overflow_Fin [of 0] by (simp add: fsub_def)
  then have tol: "\<not> fless atol (fabs (fsub (kahan_sum ?p) (Fin 1)))"
    by (simp add: k atol_def)
  have c_len: "length (cumsum ?p) = length ps"
    by (simp add: cumsum_def length_cumsum_from)
  with ne have c_ne: "cumsum ?p \<noteq> []" by auto
  have c_last: "last (cumsum ?p) = Fin 1"
    using last_cumsum_from_Fin [OF ne _ nonneg, of 0] one by (simp add: cumsum_def)
  let ?cdf = "map (\<lambda>c. fdiv c (last (cumsum ?p))) (cumsum ?p)"
  have cdf_ne: "?cdf \<noteq> []" using c_ne by simp
  have "fdiv (Fin 1) (Fin 1) = Fin 1"
    using overflow_Fin [of 1] by simp
  then have cdf_last: "last ?cdf = Fin 1" using c_ne c_last by (simp add: last_map)
  have cdf_len: "length ?cdf = length a" using c_len len by simp
  let ?us = "fst (random_sample (nat n) g)"
  let ?idx = "map (searchsorted_right ?cdf) ?us"
  have in_range: "list_all (\<lambda>i. i < length a) ?idx"
    using searchsorted_in_range [OF cdf_ne cdf_last] cdf_len
    by (auto simp: list_all_iff random_sample_def)
  have res: "np_random_choice a n ?p g =
      (Inr (map (nth a) ?idx), snd (random_sample (nat n) g))"
    unfolding np_random_choice_def
    using a_ne len k noneg tol c_ne n in_range
    by (simp add: Let_def case_prod_beta)
  have "length (map (nth a) ?idx) = nat n" by (simp add: random_sample_def)
  moreover have "set (map (nth a) ?idx) \<subseteq> set a"
    using in_range by (auto simp: list_all_iff)
  ultimately show ?thesis using res by blast
qed

lemma rollable_sum:
  assumes "rollable d"
  shows "\<exists>rs. map snd (df d) = map Fin rs \<and> (\<forall>r\<in>set rs. 0 \<le> r) \<and>
              np_sum (map snd (df d)) = Fin (sum_list rs) \<and>
              0 < sum_list rs \<and> sum_list rs \<le> 2 ^ 1023"
proof -
  let ?ws = "map snd (df d)"
  from assms obtain rs where rs: "?ws = map Fin rs" "\<forall>r\<in>set rs. 0 \<le> r"
    unfolding rollable_def using list_all_nonneg_finite by blast
  from assms have pos: "fless (Fin 0) (np_sum ?ws)"
    and le: "\<not> fless (Fin (2 ^ 1023)) (np_sum ?ws)"
    by (simp_all add: rollable_def)
  then obtain s where s: "np_sum ?ws = Fin s" "0 < s" "s \<le> 2 ^ 1023"
    by (cases "np_sum ?ws") auto
  from np_sum_eq_Fin [OF s(1)] obtain rs' where "?ws = map Fin rs'" "sum_list rs' = s"
    by blast
  with rs(1) have "sum_list rs = s" by (simp add: inj_map_eq_map inj_on_def)
  with rs s show ?thesis by auto
qed

lemma rollable_probabilities:
  assumes "rollable d"
  shows "\<exists>ps. map (\<lambda>w. fdiv w (np_sum (map snd (df d)))) (map snd (df d)) = map Fin ps \<and>
             length ps = length (df d) \<and> (\<forall>p\<in>set ps. 0 \<le> p) \<and> sum_list ps = 1"
proof -
  from rollable_sum [OF assms] obtain rs where
    rs: "map snd (df d) = map Fin rs" "\<forall>r\<in>set rs. 0 \<le> r"
    and sum: "np_sum (map snd (df d)) = Fin (sum_list rs)"
    and pos: "0 < sum_list rs"
    by blast
  let ?s = "sum_list rs"
  let ?ps = "map (\<lambda>r. r / ?s) rs"
  have quot: "fdiv (Fin r) (Fin ?s) = Fin (r / ?s)" if "r \<in> set rs" for r
  proof -
    from that rs(2) have "0 \<le> r" by simp
    moreover from that rs(2) have "r \<le> ?s" by (rule member_le_sum_list_real [rotated])
    ultimately have "0 \<le> r / ?s" and "r / ?s \<le> 1" using pos by simp_all
    then have "\<bar>r / ?s\<bar> \<le> 2 ^ 1023" by simp
    from overflow_Fin [OF this] pos show ?thesis by simp
  qed
  have e: "map (\<lambda>w. fdiv w (Fin ?s)) (map Fin rs) = map Fin ?ps"
    using quot by simp
  have "map (\<lambda>w. fdiv w (np_sum (map snd (df d)))) (map snd (df d)) = map Fin ?ps"
    unfolding sum unfolding rs(1) by (rule e)
  moreover have "length ?ps = length (df d)"
    using rs(1) by (metis length_map)
  moreover have "\<forall>p\<in>set ?ps. 0 \<le> p" using rs(2) pos by auto
  moreover have "sum_list ?ps = 1" using pos by (simp add: sum_list_divide)
  ultimately show ?thesis by blast
qed

lemma roll_rollable:
  assumes "rollable d" and "0 \<le> n" and "n < 2 ^ 60"
  shows "\<exists>xs g'. roll d n g = (Inr xs, d, g') \<and> length xs = nat n \<and>
                 set xs \<subseteq> set (map fst (df d))"
proof -
  from rollable_probabilities [OF assms(1)] obtain ps where
    ps: "map (\<lambda>w. fdiv w (np_sum (map snd (df d)))) (map snd (df d)) = map Fin ps"
      "length ps = length (df d)" "\<forall>p\<in>set ps. 0 \<le> p" "sum_list ps = 1"
    by blast
  have len: "length (map fst (df d)) = length ps" using ps(2) by simp
  from np_random_choice_ok [OF len ps(3) ps(4) assms(2) assms(3), of g] obtain xs where
    xs: "np_random_choice (map fst (df d)) n (map Fin ps) g =
           (Inr xs, snd (random_sample (nat n) g))"
      "length xs = nat n" "set xs \<subseteq> set (map fst (df d))"
    by blast
  have "roll d n g = (Inr xs, d, snd (random_sample (nat n) g))"
    using xs(1) ps(1) by (simp add: roll_def Let_def)
  with xs(2,3) show ?thesis by blast
qed

section \<open>Die.roll\<close>

text \<open>
  C1: when the weights of a die sum to zero, \<^verbatim>\<open>roll\<close> raises \<^verbatim>\<open>ValueError\<close>, for every
  number of rolls and every state of the generator; it returns no outcome, and the die
  and the generator are as before. The division by the zero sum itself raises nothing:
  it gives NaN or infinities, which \<^verbatim>\<open>numpy.random.choice\<close> then refuses.
\<close>

theorem roll_zero_sum_fails:
  assumes "np_sum (map snd (df d)) = Fin 0"
  shows "roll d n g = (Inl ValueError, d, g)"
proof -
  from np_sum_eq_Fin [OF assms] obtain rs where
    rs: "map snd (df d) = map Fin rs" "sum_list rs = 0" by blast
  let ?p = "map (\<lambda>w. fdiv w (Fin 0)) (map Fin rs)"
  let ?a = "map fst (df d)"
  have choice: "np_random_choice ?a n ?p g = (Inl ValueError, g)"
  proof (cases "\<exists>r\<in>set rs. r < 0")
    case True
    then have "list_ex (\<lambda>x. fless x (Fin 0)) ?p"
      by (auto simp: list_ex_iff intro!: bexI)
    then show ?thesis by (simp add: np_random_choice_def)
  next
    case False
    then have "\<forall>r\<in>set rs. 0 \<le> r" by (auto simp: not_less)
    with rs(2) have zero: "\<forall>r\<in>set rs. r = 0"
      by (simp add: sum_list_nonneg_eq_0_iff)
    then have p: "?p = map (\<lambda>_. NaN) rs" by simp
    show ?thesis
    proof (cases rs)
      case Nil
      then show ?thesis
        by (simp add: np_random_choice_def kahan_sum_def fsub_def atol_def overflow_def)
    next
      case (Cons r rs')
      then have "kahan_sum ?p = NaN"
        unfolding p by (simp add: kahan_sum_def kahan_loop_NaN)
      then show ?thesis by (simp add: np_random_choice_def)
    qed
  qed
  have "map (\<lambda>w. fdiv w (np_sum (map snd (df d)))) (map snd (df d)) = ?p"
    unfolding assms unfolding rs(1) by (rule refl)
  with choice show ?thesis by (simp add: roll_def Let_def)
qed

theorem roll_zero_sum_fails_witness:
  "np_sum (map snd (df \<lparr>df = [(1::nat, Fin 0), (2, Fin 0)]\<rparr>)) = Fin 0 \<and>
   roll \<lparr>df = [(1::nat, Fin 0), (2, Fin 0)]\<rparr> 3 (\<lambda>_. 0) =
     (Inl ValueError, \<lparr>df = [(1, Fin 0), (2, Fin 0)]\<rparr>, \<lambda>_. 0) \<and>
   np_sum (map snd (df \<lparr>df = [(1::nat, Fin 1), (2, Fin (- 1))]\<rparr>)) = Fin 0 \<and>
   roll \<lparr>df = [(1::nat, Fin 1), (2, Fin (- 1))]\<rparr> 3 (\<lambda>_. 0) =
     (Inl ValueError, \<lparr>df = [(1, Fin 1), (2, Fin (- 1))]\<rparr>, \<lambda>_. 0)"
proof -
  have h: "np_sum (map snd (df \<lparr>df = [(1::nat, Fin 0), (2, Fin 0)]\<rparr>)) = Fin 0"
    by (simp add: np_sum_def overflow_def)
  have h': "np_sum (map snd (df \<lparr>df = [(1::nat, Fin 1), (2, Fin (- 1))]\<rparr>)) = Fin 0"
    by (simp add: np_sum_def overflow_def)
  show ?thesis
    using h h' roll_zero_sum_fails [OF h, of 3 "\<lambda>_. 0"] roll_zero_sum_fails [OF h', of 3 "\<lambda>_. 0"]
    by simp
qed

text \<open>
  C8, as the code has it: for a die whose weights are finite and not negative, with a
  positive sum of at most \<open>2^1023\<close>, and for \<open>0 \<le> n < 2^60\<close>, \<^verbatim>\<open>roll(n)\<close> returns a
  list of exactly \<open>n\<close> faces of the die and leaves the die as it was.
\<close>

theorem roll_returns_faces:
  "rollable d \<Longrightarrow> 0 \<le> n \<Longrightarrow> n < 2 ^ 60 \<Longrightarrow>
     \<exists>xs g'. roll d n g = (Inr xs, d, g') \<and> length xs = nat n \<and>
              set xs \<subseteq> set (map fst (df d))"
  by (rule roll_rollable)

theorem roll_returns_faces_witness:
  "rollable \<lparr>df = [(1::nat, Fin 1), (2, Fin 1), (3, Fin 1)]\<rparr> \<and>
   (\<exists>xs g'. roll \<lparr>df = [(1::nat, Fin 1), (2, Fin 1), (3, Fin 1)]\<rparr> 2 (\<lambda>_. 0) =
              (Inr xs, \<lparr>df = [(1, Fin 1), (2, Fin 1), (3, Fin 1)]\<rparr>, g') \<and>
            length xs = 2 \<and> set xs \<subseteq> {1, 2, 3})"
proof -
  have h: "rollable \<lparr>df = [(1::nat, Fin 1), (2, Fin 1), (3, Fin 1)]\<rparr>"
    by (simp add: rollable_def np_sum_def overflow_def)
  have h1: "(0::int) \<le> 2" and h2: "(2::int) < 2 ^ 60" by simp_all
  show ?thesis
    using h roll_returns_faces [OF h h1 h2, of "\<lambda>_. 0"] by simp
qed

lemma roll_negative_weight:
  "fless (Fin 0) (np_sum (map snd (df \<lparr>df = [(1::nat, Fin 2), (2, Fin (- 1))]\<rparr>)))"
  "fst (roll \<lparr>df = [(1::nat, Fin 2), (2, Fin (- 1))]\<rparr> 1 (\<lambda>_. 0)) = Inl ValueError"
  by (simp_all add: roll_def np_sum_def overflow_def np_random_choice_def kahan_sum_def
      fsub_def Let_def)

lemma roll_infinite_weight:
  "fless (Fin 0) (np_sum (map snd (df \<lparr>df = [(1::nat, PInf), (2, Fin 1)]\<rparr>)))"
  "fst (roll \<lparr>df = [(1::nat, PInf), (2, Fin 1)]\<rparr> 1 (\<lambda>_. 0)) = Inl ValueError"
  by (simp_all add: roll_def np_sum_def overflow_def np_random_choice_def kahan_sum_def
      fsub_def Let_def)

lemma roll_overflowing_sum:
  "fless (Fin 0)
     (np_sum (map snd (df \<lparr>df = [(1::nat, Fin (2 ^ 1023)), (2, Fin (2 ^ 1023))]\<rparr>)))"
  "fst (roll \<lparr>df = [(1::nat, Fin (2 ^ 1023)), (2, Fin (2 ^ 1023))]\<rparr> 1 (\<lambda>_. 0)) =
     Inl ValueError"
  by (simp_all add: roll_def np_sum_def overflow_def np_random_choice_def kahan_sum_def
      fsub_def atol_def Let_def)

lemma roll_too_many:
  "fst (roll \<lparr>df = [(1::nat, Fin 1), (2, Fin 1)]\<rparr> (2 ^ 63) (\<lambda>_. 0)) = Inl ValueError"
  by (simp add: roll_def np_sum_def overflow_def np_random_choice_def kahan_sum_def fsub_def
      atol_def cumsum_def Let_def)

text \<open>
  The claim C8 as the specification states it asks for a positive sum and \<open>n \<ge> 0\<close>
  only. It fails on the die with the weights 2 and -1 (their sum is 1), on the die with
  the weights infinity and 1, on the die with the weight \<open>2^1023\<close> twice (finite
  weights whose float64 sum is infinity), and on a fair die for \<open>n = 2^63\<close>: each time
  \<^verbatim>\<open>roll\<close> raises \<^verbatim>\<open>ValueError\<close>.
\<close>

theorem roll_positive_sum_counterexample:
  "fless (Fin 0) (np_sum (map snd (df \<lparr>df = [(1::nat, Fin 2), (2, Fin (- 1))]\<rparr>))) \<and>
   fst (roll \<lparr>df = [(1::nat, Fin 2), (2, Fin (- 1))]\<rparr> 1 (\<lambda>_. 0)) = Inl ValueError \<and>
   fless (Fin 0) (np_sum (map snd (df \<lparr>df = [(1::nat, PInf), (2, Fin 1)]\<rparr>))) \<and>
   fst (roll \<lparr>df = [(1::nat, PInf), (2, Fin 1)]\<rparr> 1 (\<lambda>_. 0)) = Inl ValueError \<and>
   fless (Fin 0)
     (np_sum (map snd (df \<lparr>df = [(1::nat, Fin (2 ^ 1023)), (2, Fin (2 ^ 1023))]\<rparr>))) \<and>
   fst (roll \<lparr>df = [(1::nat, Fin (2 ^ 1023)), (2, Fin (2 ^ 1023))]\<rparr> 1 (\<lambda>_. 0)) =
     Inl ValueError \<and>
   fst (roll \<lparr>df = [(1::nat, Fin 1), (2, Fin 1)]\<rparr> (2 ^ 63) (\<lambda>_. 0)) = Inl ValueError"
  by (intro conjI roll_negative_weight roll_infinite_weight roll_overflowing_sum
      roll_too_many)

section \<open>Game.play\<close>

lemma roll_die_unchanged: "fst (snd (roll d n g)) = d"
  by (simp add: roll_def Let_def split: prod.splits)

lemma roll_all_dice_unchanged: "fst (snd (roll_all ds n g)) = ds"
proof (induction ds arbitrary: g)
  case Nil
  then show ?case by simp
next
  case (Cons d ds)
  show ?case
  proof (cases "roll d n g")
    case (fields r d' g')
    then have d': "d' = d" using roll_die_unchanged [of d n g] by simp
    show ?thesis
    proof (cases r)
      case (Inl e)
      with fields d' show ?thesis by simp
    next
      case (Inr xs)
      with fields d' Cons.IH [of g'] show ?thesis
        by (auto split: prod.splits sum.splits)
    qed
  qed
qed

text \<open>
  C4: when \<^verbatim>\<open>play\<close> raises, whichever die's roll failed and whatever was rolled before
  it, the game is what it was before the call; so is the table it holds.
\<close>

theorem play_atomic:
  "fst (play s n g) = Inl e \<Longrightarrow>
     fst (snd (play s n g)) = s \<and> results (fst (snd (play s n g))) = results s"
proof -
  assume err: "fst (play s n g) = Inl e"
  have "fst (snd (play s n g)) = s"
    using err roll_all_dice_unchanged [of "dice s" n g]
    by (auto simp: play_def split: prod.splits sum.splits)
  then show ?thesis by simp
qed

theorem play_atomic_witness:
  "fst (play \<lparr>dice = [\<lparr>df = [(1::nat, Fin 0), (2, Fin 0)]\<rparr>],
              results = Some \<lparr>df_columns = [0], df_rows = [[1], [2]]\<rparr>\<rparr> 3 (\<lambda>_. 0))
     = Inl ValueError \<and>
   results (fst (snd (play \<lparr>dice = [\<lparr>df = [(1::nat, Fin 0), (2, Fin 0)]\<rparr>],
              results = Some \<lparr>df_columns = [0], df_rows = [[1], [2]]\<rparr>\<rparr> 3 (\<lambda>_. 0))))
     = Some \<lparr>df_columns = [0], df_rows = [[1], [2]]\<rparr>"
proof -
  have h: "fst (play \<lparr>dice = [\<lparr>df = [(1::nat, Fin 0), (2, Fin 0)]\<rparr>],
              results = Some \<lparr>df_columns = [0], df_rows = [[1], [2]]\<rparr>\<rparr> 3 (\<lambda>_. 0))
     = Inl ValueError"
    by (simp add: play_def roll_def np_sum_def overflow_def np_random_choice_def kahan_sum_def Let_def)
  show ?thesis
    using h play_atomic [OF h] by simp
qed

lemma roll_all_rollable:
  "list_all rollable ds \<Longrightarrow> 0 \<le> n \<Longrightarrow> n < 2 ^ 60 \<Longrightarrow>
     \<exists>cols g'. roll_all ds n g = (Inr cols, ds, g') \<and> length cols = length ds \<and>
                (\<forall>c\<in>set cols. length c = nat n)"
proof (induction ds arbitrary: g)
  case Nil
  then show ?case by simp
next
  case (Cons d ds)
  from Cons.prems have d: "rollable d" and ds: "list_all rollable ds" by simp_all
  from roll_rollable [OF d Cons.prems(2) Cons.prems(3), of g] obtain xs g1 where
    xs: "roll d n g = (Inr xs, d, g1)" "length xs = nat n" by blast
  from Cons.IH [OF ds Cons.prems(2) Cons.prems(3), of g1] obtain cols g2 where
    cols: "roll_all ds n g1 = (Inr cols, ds, g2)" "length cols = length ds"
      "\<forall>c\<in>set cols. length c = nat n" by blast
  have "roll_all (d # ds) n g = (Inr (xs # cols), d # ds, g2)"
    using xs(1) cols(1) by simp
  moreover have "length (xs # cols) = length (d # ds)" using cols(2) by simp
  moreover have "\<forall>c\<in>set (xs # cols). length c = nat n" using xs(2) cols(3) by simp
  ultimately show ?case by blast
qed

lemma pd_DataFrame_Cons:
  "pd_DataFrame (c # cs) =
     (if list_ex (\<lambda>c'. length (snd c') \<noteq> length (snd c)) cs then Inl ValueError
      else Inr \<lparr>df_columns = map fst (c # cs),
                df_rows = map (\<lambda>i. map (\<lambda>col. snd col ! i) (c # cs)) [0..<length (snd c)]\<rparr>)"
  by (simp add: pd_DataFrame_def)

lemma map_snd_nth_zip:
  "length xs = length ys \<Longrightarrow> map (\<lambda>col. snd col ! i) (zip xs ys) = map (\<lambda>c. c ! i) ys"
  by (induction xs ys rule: list_induct2) auto

lemma pd_DataFrame_columns:
  assumes "cols \<noteq> []" and "\<forall>c\<in>set cols. length c = m"
  shows "pd_DataFrame (zip [0..<length cols] cols) =
           Inr \<lparr>df_columns = [0..<length cols],
                df_rows = map (\<lambda>i. map (\<lambda>c. c ! i) cols) [0..<m]\<rparr>"
proof -
  let ?d = "zip [0..<length cols] cols"
  have len: "length [0..<length cols] = length cols" by simp
  from assms(1) have "?d \<noteq> []" by (cases cols) (auto simp: upt_conv_Cons simp del: upt_Suc)
  then obtain x xs where d: "?d = x # xs" by (cases ?d) auto
  have "snd x \<in> set cols" and xs: "\<forall>c'\<in>set xs. snd c' \<in> set cols"
    using d set_zip_rightD [of _ _ "[0..<length cols]" cols]
    by (metis list.set_intros(1) prod.collapse, metis list.set_intros(2) prod.collapse)
  with assms(2) have lx: "length (snd x) = m" and "\<forall>c'\<in>set xs. length (snd c') = m"
    by auto
  then have same: "\<not> list_ex (\<lambda>c'. length (snd c') \<noteq> length (snd x)) xs"
    by (simp add: list_ex_iff)
  have "pd_DataFrame ?d =
          Inr \<lparr>df_columns = map fst ?d,
               df_rows = map (\<lambda>i. map (\<lambda>col. snd col ! i) ?d) [0..<m]\<rparr>"
    unfolding d pd_DataFrame_Cons using same lx by simp
  also have "map fst ?d = [0..<length cols]" by simp
  also have "(\<lambda>i. map (\<lambda>col. snd col ! i) ?d) = (\<lambda>i. map (\<lambda>c. c ! i) cols)"
    using map_snd_nth_zip [OF len] by auto
  finally show ?thesis .
qed

lemma stack_index:
  "\<forall>row\<in>set rows. length row = length cols \<Longrightarrow>
     map fst (concat (map (\<lambda>(i, row). map (\<lambda>(j, v). ((i, j), v)) (zip cols row))
                          (zip [m..<m + length rows] rows))) =
     concat (map (\<lambda>i. map (\<lambda>j. (i, j)) cols) [m..<m + length rows])"
proof (induction rows arbitrary: m)
  case Nil
  then show ?case by simp
next
  case (Cons row rows)
  have up: "[m..<m + length (row # rows)] = m # [Suc m..<Suc m + length rows]"
    using upt_conv_Cons [of m "m + length (row # rows)"] by (simp del: upt_Suc)
  have hd: "map fst (map (\<lambda>(j, v). ((m, j), v)) (zip cols row)) = map (\<lambda>j. (m, j)) cols"
  proof -
    have "map fst (map (\<lambda>(j, v). ((m, j), v)) (zip cols row)) =
          map (\<lambda>j. (m, j)) (map fst (zip cols row))"
      by (simp add: case_prod_beta comp_def)
    also have "map fst (zip cols row) = cols" using Cons.prems by simp
    finally show ?thesis .
  qed
  from Cons.prems have "\<forall>row\<in>set rows. length row = length cols" by simp
  from Cons.IH [OF this, of "Suc m"] hd show ?case
    unfolding up by simp
qed

lemma stack_values:
  "\<forall>row\<in>set rows. length row = length cols \<Longrightarrow>
     map snd (concat (map (\<lambda>(i, row). map (\<lambda>(j, v). ((i, j), v)) (zip cols row))
                          (zip [m..<m + length rows] rows))) =
     concat rows"
proof (induction rows arbitrary: m)
  case Nil
  then show ?case by simp
next
  case (Cons row rows)
  have up: "[m..<m + length (row # rows)] = m # [Suc m..<Suc m + length rows]"
    using upt_conv_Cons [of m "m + length (row # rows)"] by (simp del: upt_Suc)
  have hd: "map snd (map (\<lambda>(j, v). ((m, j), v)) (zip cols row)) = row"
  proof -
    have "map snd (map (\<lambda>(j, v). ((m, j), v)) (zip cols row)) = map snd (zip cols row)"
      by (simp add: case_prod_beta comp_def)
    also have "map snd (zip cols row) = row" using Cons.prems by simp
    finally show ?thesis .
  qed
  from Cons.prems have "\<forall>row\<in>set rows. length row = length cols" by simp
  from Cons.IH [OF this, of "Suc m"] hd show ?case
    unfolding up by simp
qed

lemma length_index_pairs:
  "length (concat (map (\<lambda>i. map (\<lambda>j. (i, j)) cols) is)) = length is * length cols"
  by (induction "is") auto

lemma play_rollable:
  assumes ne: "dice s \<noteq> []" and ok: "list_all rollable (dice s)"
    and n: "0 \<le> n" and n': "n < 2 ^ 60"
  shows "\<exists>cols g'. length cols = length (dice s) \<and> (\<forall>c\<in>set cols. length c = nat n) \<and>
           (\<forall>r0. play (s\<lparr>results := r0\<rparr>) n g =
              (Inr (), s\<lparr>results := Some \<lparr>df_columns = [0..<length (dice s)],
                  df_rows = map (\<lambda>i. map (\<lambda>c. c ! i) cols) [0..<nat n]\<rparr>\<rparr>, g'))"
proof -
  from roll_all_rollable [OF ok n n', of g] obtain cols g' where
    cols: "roll_all (dice s) n g = (Inr cols, dice s, g')" "length cols = length (dice s)"
      "\<forall>c\<in>set cols. length c = nat n" by blast
  from cols(2) ne have cne: "cols \<noteq> []" by auto
  have frame: "pd_DataFrame (zip [0..<length cols] cols) =
      Inr \<lparr>df_columns = [0..<length (dice s)],
           df_rows = map (\<lambda>i. map (\<lambda>c. c ! i) cols) [0..<nat n]\<rparr>"
    using pd_DataFrame_columns [OF cne cols(3)] cols(2) by simp
  have "play (s\<lparr>results := r0\<rparr>) n g =
      (Inr (), s\<lparr>results := Some \<lparr>df_columns = [0..<length (dice s)],
                  df_rows = map (\<lambda>i. map (\<lambda>c. c ! i) cols) [0..<nat n]\<rparr>\<rparr>, g')" for r0
    by (simp add: play_def cols(1) frame)
  with cols(2,3) show ?thesis by blast
qed

text \<open>
  C6, as the code has it: for a game over \<open>k \<ge> 1\<close> dice whose weights are finite and
  not negative with a positive sum of at most \<open>2^1023\<close>, and for \<open>0 \<le> n < 2^60\<close>,
  \<^verbatim>\<open>play(n)\<close> succeeds and stores a table that does not depend on the table stored
  before; \<^verbatim>\<open>show('wide')\<close> returns it, with \<open>n\<close> rows of \<open>k\<close> cells under the columns
  \<open>0, ..., k-1\<close> (no row when \<open>n = 0\<close>); \<^verbatim>\<open>show('narrow')\<close> returns \<open>n * k\<close> rows
  indexed by (roll number, die number), roll number first, each with the one outcome of
  that cell.
\<close>

theorem play_then_show:
  assumes "dice s \<noteq> []" and "list_all rollable (dice s)" and "0 \<le> n" and "n < 2 ^ 60"
  shows "\<exists>t g'. play s n g = (Inr (), s\<lparr>results := Some t\<rparr>, g') \<and>
           (\<forall>r0. play (s\<lparr>results := r0\<rparr>) n g = (Inr (), s\<lparr>results := Some t\<rparr>, g')) \<and>
           df_columns t = [0..<length (dice s)] \<and>
           length (df_rows t) = nat n \<and>
           (\<forall>row\<in>set (df_rows t). length row = length (dice s)) \<and>
           (n = 0 \<longrightarrow> df_rows t = []) \<and>
           Game_show (s\<lparr>results := Some t\<rparr>) ''wide'' = Inr (Some (Wide t)) \<and>
           (\<exists>nr. Game_show (s\<lparr>results := Some t\<rparr>) ''narrow'' = Inr (Some (Narrow nr)) \<and>
                 length nr = nat n * length (dice s) \<and>
                 map fst nr =
                   concat (map (\<lambda>i. map (\<lambda>j. (i, j)) [0..<length (dice s)]) [0..<nat n]) \<and>
                 map snd nr = concat (df_rows t))"
proof -
  from play_rollable [OF assms, of g] obtain cols g' where
    cols: "length cols = length (dice s)" "\<forall>c\<in>set cols. length c = nat n"
    and pl: "\<And>r0. play (s\<lparr>results := r0\<rparr>) n g =
              (Inr (), s\<lparr>results := Some \<lparr>df_columns = [0..<length (dice s)],
                  df_rows = map (\<lambda>i. map (\<lambda>c. c ! i) cols) [0..<nat n]\<rparr>\<rparr>, g')"
    by blast
  let ?t = "\<lparr>df_columns = [0..<length (dice s)],
             df_rows = map (\<lambda>i. map (\<lambda>c. c ! i) cols) [0..<nat n]\<rparr>"
  let ?nr = "stack ?t"
  have p1: "play s n g = (Inr (), s\<lparr>results := Some ?t\<rparr>, g')"
    using pl [of "results s"] by simp
  have rows_len: "\<forall>row\<in>set (df_rows ?t). length row = length (df_columns ?t)"
    using cols(1) by auto
  have len_rows: "length (df_rows ?t) = nat n" by simp
  have idx: "map fst ?nr =
      concat (map (\<lambda>i. map (\<lambda>j. (i, j)) [0..<length (dice s)]) [0..<nat n])"
    using stack_index [OF rows_len, of 0] by (simp add: stack_def)
  have vals: "map snd ?nr = concat (df_rows ?t)"
    using stack_values [OF rows_len, of 0] by (simp add: stack_def)
  have "length ?nr = length (map fst ?nr)" by simp
  also have "\<dots> = nat n * length (dice s)"
    unfolding idx length_index_pairs by simp
  finally have len_nr: "length ?nr = nat n * length (dice s)" .
  have wide: "Game_show (s\<lparr>results := Some ?t\<rparr>) ''wide'' = Inr (Some (Wide ?t))"
    by (simp add: Game_show_def)
  have narrow: "Game_show (s\<lparr>results := Some ?t\<rparr>) ''narrow'' = Inr (Some (Narrow ?nr))"
    by (simp add: Game_show_def)
  have zero: "n = 0 \<longrightarrow> df_rows ?t = []" by simp
  have cols_t: "df_columns ?t = [0..<length (dice s)]" by simp
  have rows_k: "\<forall>row\<in>set (df_rows ?t). length row = length (dice s)"
    using rows_len by simp
  from narrow len_nr idx vals have
    ex_nr: "\<exists>nr. Game_show (s\<lparr>results := Some ?t\<rparr>) ''narrow'' = Inr (Some (Narrow nr)) \<and>
                 length nr = nat n * length (dice s) \<and>
                 map fst nr =
                   concat (map (\<lambda>i. map (\<lambda>j. (i, j)) [0..<length (dice s)]) [0..<nat n]) \<and>
                 map snd nr = concat (df_rows ?t)"
    by blast
  show ?thesis
    apply (rule exI [of _ ?t])
    apply (rule exI [of _ g'])
    using p1 pl cols_t len_rows rows_k zero wide ex_nr
    apply (intro conjI allI)
           apply assumption+
    done
qed

theorem play_then_show_witness:
  "\<exists>t g'. play (Game_init [\<lparr>df = [(1::nat, Fin 1), (2, Fin 1), (3, Fin 1)]\<rparr>,
                            \<lparr>df = [(1, Fin 1), (2, Fin 1), (3, Fin 1)]\<rparr>]) 3 (\<lambda>_. 0) =
            (Inr (), Game_init [\<lparr>df = [(1::nat, Fin 1), (2, Fin 1), (3, Fin 1)]\<rparr>,
                            \<lparr>df = [(1, Fin 1), (2, Fin 1), (3, Fin 1)]\<rparr>]\<lparr>results := Some t\<rparr>, g') \<and>
          df_columns t = [0, 1] \<and> length (df_rows t) = 3"
proof -
  let ?s = "Game_init [\<lparr>df = [(1::nat, Fin 1), (2, Fin 1), (3, Fin 1)]\<rparr>,
                            \<lparr>df = [(1, Fin 1), (2, Fin 1), (3, Fin 1)]\<rparr>]"
  have h1: "dice ?s \<noteq> []" by (simp add: Game_init_def)
  have h2: "list_all rollable (dice ?s)"
    by (simp add: Game_init_def rollable_def np_sum_def overflow_def)
  have h3: "(0::int) \<le> 3" by simp
  have h4: "(3::int) < 2 ^ 60" by simp
  from play_then_show [OF h1 h2 h3 h4, of "\<lambda>_. 0"] obtain t g' where
    "play ?s 3 (\<lambda>_. 0) = (Inr (), ?s\<lparr>results := Some t\<rparr>, g')"
    "df_columns t = [0..<length (dice ?s)]" "length (df_rows t) = nat 3"
    by blast
  then have "play ?s 3 (\<lambda>_. 0) = (Inr (), ?s\<lparr>results := Some t\<rparr>, g') \<and>
      df_columns t = [0, 1] \<and> length (df_rows t) = 3"
    by (simp add: Game_init_def upt_conv_Cons del: upt_Suc)
  then show ?thesis by blast
qed

lemma play_failed_roll:
  "fst (roll d n g) = Inl e \<Longrightarrow> play (Game_init [d]) n g = (Inl e, Game_init [d], snd (snd (roll d n g)))"
  using roll_die_unchanged [of d n g]
  by (cases "roll d n g") (auto simp: play_def Game_init_def)

lemma play_negative_weight:
  "fst (play (Game_init [\<lparr>df = [(1::nat, Fin 2), (2, Fin (- 1))]\<rparr>]) 1 (\<lambda>_. 0)) = Inl ValueError"
  "Game_show (fst (snd (play (Game_init [\<lparr>df = [(1::nat, Fin 2), (2, Fin (- 1))]\<rparr>]) 1 (\<lambda>_. 0))))
     ''wide'' = Inr None"
  by (subst play_failed_roll [OF roll_negative_weight(2)], rule fst_conv)
    (subst play_failed_roll [OF roll_negative_weight(2)], simp add: Game_show_def Game_init_def)

lemma play_overflowing_sum:
  "fst (play (Game_init [\<lparr>df = [(1::nat, Fin (2 ^ 1023)), (2, Fin (2 ^ 1023))]\<rparr>]) 1 (\<lambda>_. 0)) =
     Inl ValueError"
  by (subst play_failed_roll [OF roll_overflowing_sum(2)]) (rule fst_conv)

lemma play_too_many:
  "fst (play (Game_init [\<lparr>df = [(1::nat, Fin 1), (2, Fin 1)]\<rparr>]) (2 ^ 63) (\<lambda>_. 0)) =
     Inl ValueError"
  by (subst play_failed_roll [OF roll_too_many]) (rule fst_conv)

lemma play_no_dice:
  "fst (play (Game_init ([] :: nat die list)) 5 (\<lambda>_. 0)) = Inr ()"
  "Game_show (fst (snd (play (Game_init ([] :: nat die list)) 5 (\<lambda>_. 0)))) ''wide'' =
     Inr (Some (Wide \<lparr>df_columns = [], df_rows = []\<rparr>))"
  by (simp_all add: play_def Game_init_def Game_show_def pd_DataFrame_def)

text \<open>
  The claim C6 as the specification states it fails on a game whose one die has the
  weights 2 and -1 (\<^verbatim>\<open>play\<close> raises and no table is stored), on a game whose one die
  has the weight \<open>2^1023\<close> twice, on a fair die for \<open>n = 2^63\<close>, and on a game over no
  dice, where \<^verbatim>\<open>play(5)\<close> stores a table of no rows.
\<close>

theorem play_then_show_counterexample:
  "fless (Fin 0) (np_sum (map snd (df \<lparr>df = [(1::nat, Fin 2), (2, Fin (- 1))]\<rparr>))) \<and>
   fst (play (Game_init [\<lparr>df = [(1::nat, Fin 2), (2, Fin (- 1))]\<rparr>]) 1 (\<lambda>_. 0)) = Inl ValueError \<and>
   Game_show (fst (snd (play (Game_init [\<lparr>df = [(1::nat, Fin 2), (2, Fin (- 1))]\<rparr>]) 1 (\<lambda>_. 0))))
     ''wide'' = Inr None \<and>
   fless (Fin 0)
     (np_sum (map snd (df \<lparr>df = [(1::nat, Fin (2 ^ 1023)), (2, Fin (2 ^ 1023))]\<rparr>))) \<and>
   fst (play (Game_init [\<lparr>df = [(1::nat, Fin (2 ^ 1023)), (2, Fin (2 ^ 1023))]\<rparr>]) 1 (\<lambda>_. 0)) =
     Inl ValueError \<and>
   fst (play (Game_init [\<lparr>df = [(1::nat, Fin 1), (2, Fin 1)]\<rparr>]) (2 ^ 63) (\<lambda>_. 0)) =
     Inl ValueError \<and>
   fst (play (Game_init ([] :: nat die list)) 5 (\<lambda>_. 0)) = Inr () \<and>
   Game_show (fst (snd (play (Game_init ([] :: nat die list)) 5 (\<lambda>_. 0)))) ''wide'' =
     Inr (Some (Wide \<lparr>df_columns = [], df_rows = []\<rparr>))"
  by (intro conjI roll_negative_weight roll_overflowing_sum play_negative_weight
      play_overflowing_sum play_too_many play_no_dice)

section \<open>Game.show and Analyzer on a game that was never played\<close>

text \<open>
  C3: \<^verbatim>\<open>show\<close> tests \<^verbatim>\<open>self._results is None\<close> before it looks at \<^verbatim>\<open>form\<close>. On the
  game of the repository's test \<^verbatim>\<open>test_show_bad_input\<close> (two dice with the faces 1, 2, 3,
  never played) \<^verbatim>\<open>show(form='invalid')\<close> returns \<^verbatim>\<open>None\<close>; it raises nothing.
\<close>

theorem show_bad_form_unplayed:
  "Game_show (Game_init [\<lparr>df = [(1::nat, Fin 1), (2, Fin 1), (3, Fin 1)]\<rparr>,
                         \<lparr>df = [(1, Fin 1), (2, Fin 1), (3, Fin 1)]\<rparr>]) ''invalid'' = Inr None"
  by (simp add: Game_show_def Game_init_def)

text \<open>
  C2, as the code has it: an analyzer built from a game with no stored table is built,
  and holds \<^verbatim>\<open>None\<close> where the table would be, since \<^verbatim>\<open>show\<close> returns \<^verbatim>\<open>None\<close> before
  any play; an analyzer built from anything but a game raises \<^verbatim>\<open>ValueError\<close>.
\<close>

theorem Analyzer_init_unplayed:
  "(results (s :: 'a game) = None \<longrightarrow>
      Analyzer_init (GameObj s) =
        Inr \<lparr>game = s, df_results = None, jackpot_count = None, face_counts = None,
             combo_counts = None, permutation_counts = None\<rparr>) \<and>
   Analyzer_init NotGame = (Inl ValueError :: pyerror + 'a analyzer)"
  by (simp add: Analyzer_init_def Game_show_def)

theorem Analyzer_init_unplayed_witness:
  "Analyzer_init (GameObj (Game_init [\<lparr>df = [(1::nat, Fin 1), (2, Fin 1)]\<rparr>])) =
     Inr \<lparr>game = Game_init [\<lparr>df = [(1::nat, Fin 1), (2, Fin 1)]\<rparr>], df_results = None,
          jackpot_count = None, face_counts = None, combo_counts = None,
          permutation_counts = None\<rparr>"
  using Analyzer_init_unplayed [of "Game_init [\<lparr>df = [(1::nat, Fin 1), (2, Fin 1)]\<rparr>]"]
  by (simp add: Game_init_def)

text \<open>
  The claim C2 as the specification states it fails on a game that was never played:
  the analyzer holds \<^verbatim>\<open>None\<close>, no empty table, and \<^verbatim>\<open>jackpot()\<close> on it raises
  \<^verbatim>\<open>AttributeError\<close> where the claim has it return zero.
\<close>

theorem Analyzer_unplayed_counterexample:
  "Analyzer_init (GameObj (Game_init [\<lparr>df = [(1::nat, Fin 1), (2, Fin 1)]\<rparr>])) =
     Inr \<lparr>game = Game_init [\<lparr>df = [(1::nat, Fin 1), (2, Fin 1)]\<rparr>], df_results = None,
          jackpot_count = None, face_counts = None, combo_counts = None,
          permutation_counts = None\<rparr> \<and>
   fst (jackpot \<lparr>game = Game_init [\<lparr>df = [(1::nat, Fin 1), (2, Fin 1)]\<rparr>], df_results = None,
          jackpot_count = None, face_counts = None, combo_counts = None,
          permutation_counts = None\<rparr>) = Inl AttributeError"
  by (simp add: Analyzer_init_def Game_show_def Game_init_def jackpot_def)

section \<open>Analyzer.face_counts_per_roll, combo and permutation\<close>

lemma set_unique_from: "set (unique_from seen xs) = set xs - set seen"
  by (induction xs arbitrary: seen) auto

lemma distinct_unique_from: "distinct (unique_from seen xs)"
  by (induction xs arbitrary: seen) (auto simp: set_unique_from)

lemma unique_from_snoc:
  "unique_from seen (xs @ [x]) =
     (if x \<in> set seen \<union> set xs then unique_from seen xs else unique_from seen xs @ [x])"
  by (induction xs arbitrary: seen) auto

lemma set_pd_unique: "set (pd_unique xs) = set xs"
  by (simp add: pd_unique_def set_unique_from)

lemma distinct_pd_unique: "distinct (pd_unique xs)"
  by (simp add: pd_unique_def distinct_unique_from)

lemma pd_unique_snoc:
  "pd_unique (xs @ [x]) = (if x \<in> set xs then pd_unique xs else pd_unique xs @ [x])"
  by (simp add: pd_unique_def unique_from_snoc)

lemma pd_unique_first_occurrences:
  "pd_unique xs = map (nth xs) (filter (\<lambda>i. xs ! i \<notin> set (take i xs)) [0..<length xs])"
proof (induction xs rule: rev_induct)
  case Nil
  then show ?case by (simp add: pd_unique_def)
next
  case (snoc x xs)
  have f: "filter (\<lambda>i. (xs @ [x]) ! i \<notin> set (take i (xs @ [x]))) [0..<length xs] =
           filter (\<lambda>i. xs ! i \<notin> set (take i xs)) [0..<length xs]"
    by (rule filter_cong) (auto simp: nth_append)
  have m: "map (nth (xs @ [x])) (filter (\<lambda>i. xs ! i \<notin> set (take i xs)) [0..<length xs]) =
           map (nth xs) (filter (\<lambda>i. xs ! i \<notin> set (take i xs)) [0..<length xs])"
    by (rule map_cong) (auto simp: nth_append)
  let ?P = "\<lambda>i. (xs @ [x]) ! i \<notin> set (take i (xs @ [x]))"
  have up: "[0..<length (xs @ [x])] = [0..<length xs] @ [length xs]" by simp
  have "map (nth (xs @ [x])) (filter ?P [0..<length (xs @ [x])]) =
        map (nth (xs @ [x])) (filter ?P [0..<length xs]) @
        map (nth (xs @ [x])) (filter ?P [length xs])"
    by (simp only: up filter_append map_append)
  also have "map (nth (xs @ [x])) (filter ?P [0..<length xs]) = pd_unique xs"
    by (simp only: f m snoc.IH)
  also have "map (nth (xs @ [x])) (filter ?P [length xs]) = (if x \<in> set xs then [] else [x])"
    by simp
  finally show ?case by (simp add: pd_unique_snoc)
qed

lemma set_value_counts: "set (value_counts xs) = (\<lambda>k. (k, count_list xs k)) ` set xs"
  by (simp add: value_counts_def set_pd_unique)

lemma distinct_keys_value_counts: "distinct (map fst (value_counts xs))"
proof -
  let ?ys = "map (\<lambda>k. (k, count_list xs k)) (pd_unique xs)"
  have "distinct ?ys"
    by (simp add: distinct_map distinct_pd_unique inj_on_def)
  then have d: "distinct (value_counts xs)" by (simp add: value_counts_def)
  have "inj_on fst (set (value_counts xs))"
    by (auto simp: set_value_counts inj_on_def)
  with d show ?thesis by (simp add: distinct_map)
qed

lemma keys_value_counts: "fst ` set (value_counts xs) = set xs"
  by (auto simp: set_value_counts image_iff)

lemma map_of_value_counts:
  "k \<in> set xs \<Longrightarrow> map_of (value_counts xs) k = Some (count_list xs k)"
  by (rule map_of_is_SomeI [OF distinct_keys_value_counts]) (simp add: set_value_counts)

lemma count_list_map_filter: "count_list (map f rs) k = length (filter (\<lambda>r. f r = k) rs)"
  by (induction rs) auto

lemma descending_counts:
  "sorted (map (\<lambda>kc. - int (snd kc)) zs) \<Longrightarrow> sorted (rev (map snd zs))"
  by (induction zs) (auto simp: sorted_append)

lemma sorted_value_counts: "sorted (rev (map snd (value_counts xs)))"
  unfolding value_counts_def by (rule descending_counts) (rule sorted_sort_key)

text \<open>
  C9: \<^verbatim>\<open>face_counts_per_roll\<close> succeeds on a stored table and caches its result. Its
  columns are the values met in the table itself, read row by row: a cell gives a column
  exactly when its value has not occurred before it, so the columns are distinct, in the
  order of first occurrence, and are the values of the table and no others. There is one
  row of counts per row of the table, and its cell under a value is the number of cells of
  that row equal to the value, zero when the row does not hold it.
\<close>

theorem face_counts_per_roll_counts:
  "\<exists>fc. face_counts_per_roll (a\<lparr>df_results := Some t\<rparr>) =
          (Inr fc, a\<lparr>df_results := Some t, face_counts := Some fc\<rparr>) \<and>
        df_columns fc =
          map (nth (concat (frame_rows t)))
            (filter (\<lambda>i. concat (frame_rows t) ! i \<notin> set (take i (concat (frame_rows t))))
               [0..<length (concat (frame_rows t))]) \<and>
        distinct (df_columns fc) \<and>
        set (df_columns fc) = set (concat (frame_rows t)) \<and>
        length (df_rows fc) = length (frame_rows t) \<and>
        (\<forall>i<length (frame_rows t).
           length (df_rows fc ! i) = length (df_columns fc) \<and>
           (\<forall>j<length (df_columns fc).
              df_rows fc ! i ! j =
                length (filter (\<lambda>c. c = df_columns fc ! j) (frame_rows t ! i)) \<and>
              (df_columns fc ! j \<notin> set (frame_rows t ! i) \<longrightarrow> df_rows fc ! i ! j = 0)))"
proof -
  let ?cells = "concat (frame_rows t)"
  let ?u = "pd_unique ?cells"
  let ?fc = "\<lparr>df_columns = ?u,
              df_rows = map (\<lambda>row. map (\<lambda>face. count_list row face) ?u) (frame_rows t)\<rparr>"
  have run: "face_counts_per_roll (a\<lparr>df_results := Some t\<rparr>) =
      (Inr ?fc, a\<lparr>df_results := Some t, face_counts := Some ?fc\<rparr>)"
    by (simp add: face_counts_per_roll_def Let_def)
  have cols: "df_columns ?fc =
      map (nth ?cells) (filter (\<lambda>i. ?cells ! i \<notin> set (take i ?cells)) [0..<length ?cells])"
    using pd_unique_first_occurrences [of ?cells] by simp
  have dist: "distinct (df_columns ?fc)" by (simp add: distinct_pd_unique)
  have univ: "set (df_columns ?fc) = set ?cells" by (simp add: set_pd_unique)
  have len: "length (df_rows ?fc) = length (frame_rows t)" by simp
  have cells: "\<forall>i<length (frame_rows t).
           length (df_rows ?fc ! i) = length (df_columns ?fc) \<and>
           (\<forall>j<length (df_columns ?fc).
              df_rows ?fc ! i ! j =
                length (filter (\<lambda>c. c = df_columns ?fc ! j) (frame_rows t ! i)) \<and>
              (df_columns ?fc ! j \<notin> set (frame_rows t ! i) \<longrightarrow> df_rows ?fc ! i ! j = 0))"
    by (auto simp: count_list_eq_length_filter count_list_0_iff [symmetric]
        intro: arg_cong [where f = length] filter_cong)
  show ?thesis
    apply (rule exI [of _ ?fc])
    using run cols dist univ len cells
    apply (intro conjI)
         apply assumption+
    done
qed

text \<open>The single row (1, 1, 2) over three dice: the columns are 1 and 2, the counts 2 and 1.\<close>

theorem face_counts_per_roll_counts_witness:
  "fst (face_counts_per_roll
     \<lparr>game = Game_init [], df_results = Some (Wide \<lparr>df_columns = [0, 1, 2], df_rows = [[1::nat, 1, 2]]\<rparr>),
      jackpot_count = None, face_counts = None, combo_counts = None,
      permutation_counts = None\<rparr>) =
   Inr \<lparr>df_columns = [1, 2], df_rows = [[2, 1]]\<rparr>"
proof -
  let ?t = "Wide \<lparr>df_columns = [0, 1, 2], df_rows = [[1::nat, 1, 2]]\<rparr>"
  let ?a = "\<lparr>game = Game_init [], df_results = Some ?t,
      jackpot_count = None, face_counts = None, combo_counts = None,
      permutation_counts = None\<rparr>"
  from face_counts_per_roll_counts [where a = ?a and t = ?t] obtain fc where
    fc: "face_counts_per_roll (?a\<lparr>df_results := Some ?t\<rparr>) =
          (Inr fc, ?a\<lparr>df_results := Some ?t, face_counts := Some fc\<rparr>)"
    by blast
  then show ?thesis
    by (auto simp: face_counts_per_roll_def pd_unique_def Let_def numeral_2_eq_2)
qed

text \<open>
  C5: \<^verbatim>\<open>combo\<close> and \<^verbatim>\<open>permutation\<close> succeed on a stored table and cache their
  results. The keys of \<^verbatim>\<open>combo\<close> are the rows sorted ascending, each once, and the count
  of a key is the number of rows that sort to it; the keys of \<^verbatim>\<open>permutation\<close> are the
  rows as they stand, each once, and the count of a key is the number of rows equal to it.
  On the rows (1,2), (2,1), (1,1) of two dice, \<^verbatim>\<open>combo\<close> gives the two keys (1,2) with
  count 2 and (1,1) with count 1, and \<^verbatim>\<open>permutation\<close> gives three keys, (1,2), (2,1)
  and (1,1), each with count 1.
\<close>

theorem combo_permutation_keys:
  "(\<exists>cc. combo (a\<lparr>df_results := Some t\<rparr>) =
            (Inr cc, a\<lparr>df_results := Some t, combo_counts := Some cc\<rparr>) \<and>
          distinct (map fst cc) \<and>
          set (map fst cc) = sort ` set (frame_rows t) \<and>
          (\<forall>k\<in>set (map fst cc).
             map_of cc k = Some (length (filter (\<lambda>r. sort r = k) (frame_rows t))))) \<and>
   (\<exists>pc. permutation (a\<lparr>df_results := Some t\<rparr>) =
            (Inr pc, a\<lparr>df_results := Some t, permutation_counts := Some pc\<rparr>) \<and>
          distinct (map fst pc) \<and>
          set (map fst pc) = set (frame_rows t) \<and>
          (\<forall>k\<in>set (map fst pc).
             map_of pc k = Some (length (filter (\<lambda>r. r = k) (frame_rows t))))) \<and>
   fst (combo (b\<lparr>df_results :=
          Some (Wide \<lparr>df_columns = [0, 1], df_rows = [[1::nat, 2], [2, 1], [1, 1]]\<rparr>)\<rparr>)) =
     Inr [([1, 2], 2), ([1, 1], 1)] \<and>
   (\<exists>pc. fst (permutation (b\<lparr>df_results :=
          Some (Wide \<lparr>df_columns = [0, 1], df_rows = [[1::nat, 2], [2, 1], [1, 1]]\<rparr>)\<rparr>)) = Inr pc \<and>
        length pc = 3 \<and> set pc = {([1, 2], 1), ([2, 1], 1), ([1, 1], 1)})"
proof (intro conjI)
  let ?rows = "frame_rows t"
  let ?cc = "value_counts (map sort ?rows)"
  have "combo (a\<lparr>df_results := Some t\<rparr>) =
            (Inr ?cc, a\<lparr>df_results := Some t, combo_counts := Some ?cc\<rparr>)"
    by (simp add: combo_def Let_def)
  moreover have "distinct (map fst ?cc)" by (rule distinct_keys_value_counts)
  moreover have "set (map fst ?cc) = sort ` set ?rows"
    by (simp add: keys_value_counts)
  moreover have "\<forall>k\<in>set (map fst ?cc).
      map_of ?cc k = Some (length (filter (\<lambda>r. sort r = k) ?rows))"
    by (simp add: keys_value_counts map_of_value_counts count_list_map_filter)
  ultimately show "\<exists>cc. combo (a\<lparr>df_results := Some t\<rparr>) =
            (Inr cc, a\<lparr>df_results := Some t, combo_counts := Some cc\<rparr>) \<and>
          distinct (map fst cc) \<and>
          set (map fst cc) = sort ` set (frame_rows t) \<and>
          (\<forall>k\<in>set (map fst cc).
             map_of cc k = Some (length (filter (\<lambda>r. sort r = k) (frame_rows t))))"
    by blast
next
  let ?rows = "frame_rows t"
  let ?pc = "value_counts ?rows"
  have "permutation (a\<lparr>df_results := Some t\<rparr>) =
            (Inr ?pc, a\<lparr>df_results := Some t, permutation_counts := Some ?pc\<rparr>)"
    by (simp add: permutation_def Let_def)
  moreover have "distinct (map fst ?pc)" by (rule distinct_keys_value_counts)
  moreover have "set (map fst ?pc) = set ?rows" by (simp add: keys_value_counts)
  moreover have "\<forall>k\<in>set (map fst ?pc).
      map_of ?pc k = Some (length (filter (\<lambda>r. r = k) ?rows))"
    using count_list_map_filter [of "\<lambda>r. r" ?rows]
    by (simp add: keys_value_counts map_of_value_counts)
  ultimately show "\<exists>pc. permutation (a\<lparr>df_results := Some t\<rparr>) =
            (Inr pc, a\<lparr>df_results := Some t, permutation_counts := Some pc\<rparr>) \<and>
          distinct (map fst pc) \<and>
          set (map fst pc) = set (frame_rows t) \<and>
          (\<forall>k\<in>set (map fst pc).
             map_of pc k = Some (length (filter (\<lambda>r. r = k) (frame_rows t))))"
    by blast
next
  show "fst (combo (b\<lparr>df_results :=
          Some (Wide \<lparr>df_columns = [0, 1], df_rows = [[1::nat, 2], [2, 1], [1, 1]]\<rparr>)\<rparr>)) =
     Inr [([1, 2], 2), ([1, 1], 1)]"
    by (simp add: combo_def value_counts_def pd_unique_def Let_def)
next
  have "fst (permutation (b\<lparr>df_results :=
          Some (Wide \<lparr>df_columns = [0, 1], df_rows = [[1::nat, 2], [2, 1], [1, 1]]\<rparr>)\<rparr>)) =
        Inr [([1, 2], 1), ([2, 1], 1), ([1, 1], 1)]"
    by (simp add: permutation_def value_counts_def pd_unique_def Let_def)
  then show "\<exists>pc. fst (permutation (b\<lparr>df_results :=
          Some (Wide \<lparr>df_columns = [0, 1], df_rows = [[1::nat, 2], [2, 1], [1, 1]]\<rparr>)\<rparr>)) = Inr pc \<and>
        length pc = 3 \<and> set pc = {([1, 2], 1), ([2, 1], 1), ([1, 1], 1)}"
    by auto
qed

theorem combo_permutation_keys_witness:
  "(\<exists>cc. fst (combo \<lparr>game = Game_init [],
             df_results = Some (Wide \<lparr>df_columns = [0, 1], df_rows = [[1::nat, 2], [2, 1], [1, 1]]\<rparr>),
             jackpot_count = None, face_counts = None, combo_counts = None,
             permutation_counts = None\<rparr>) = Inr cc \<and>
          set (map fst cc) = {[1, 1], [1, 2]} \<and>
          map_of cc [1, 2] = Some 2 \<and> map_of cc [1, 1] = Some 1) \<and>
   (\<exists>pc. fst (permutation \<lparr>game = Game_init [],
             df_results = Some (Wide \<lparr>df_columns = [0, 1], df_rows = [[1::nat, 2], [2, 1], [1, 1]]\<rparr>),
             jackpot_count = None, face_counts = None, combo_counts = None,
             permutation_counts = None\<rparr>) = Inr pc \<and>
          set (map fst pc) = {[1, 2], [2, 1], [1, 1]} \<and>
          map_of pc [1, 2] = Some 1 \<and> map_of pc [2, 1] = Some 1 \<and> map_of pc [1, 1] = Some 1)"
proof -
  let ?t = "Wide \<lparr>df_columns = [0, 1], df_rows = [[1::nat, 2], [2, 1], [1, 1]]\<rparr>"
  let ?a = "\<lparr>game = Game_init [], df_results = Some ?t,
             jackpot_count = None, face_counts = None, combo_counts = None,
             permutation_counts = None\<rparr>"
  note th = combo_permutation_keys [where a = ?a and t = ?t and b = ?a]
  note th1 = th [THEN conjunct1]
  note th2 = th [THEN conjunct2, THEN conjunct1]
  from th1 obtain cc where
    cc: "combo (?a\<lparr>df_results := Some ?t\<rparr>) =
           (Inr cc, ?a\<lparr>df_results := Some ?t, combo_counts := Some cc\<rparr>)"
      "set (map fst cc) = sort ` set (frame_rows ?t)"
      "\<forall>k\<in>set (map fst cc).
         map_of cc k = Some (length (filter (\<lambda>r. sort r = k) (frame_rows ?t)))"
    by (elim exE conjE)
  from th2 obtain pc where
    pc: "permutation (?a\<lparr>df_results := Some ?t\<rparr>) =
           (Inr pc, ?a\<lparr>df_results := Some ?t, permutation_counts := Some pc\<rparr>)"
      "set (map fst pc) = set (frame_rows ?t)"
      "\<forall>k\<in>set (map fst pc).
         map_of pc k = Some (length (filter (\<lambda>r. r = k) (frame_rows ?t)))"
    by (elim exE conjE)
  have c1: "fst (combo ?a) = Inr cc" using cc(1) by simp
  have c2: "set (map fst cc) = {[1, 1], [1, 2]}"
    unfolding cc(2) by (simp add: insert_commute)
  have c3: "map_of cc [1, 2] = Some 2"
    using cc(3) [rule_format, of "[1, 2]"] unfolding c2 by simp
  have c4: "map_of cc [1, 1] = Some 1"
    using cc(3) [rule_format, of "[1, 1]"] unfolding c2 by simp
  have p1: "fst (permutation ?a) = Inr pc" using pc(1) by simp
  have p2: "set (map fst pc) = {[1, 2], [2, 1], [1, 1]}"
    unfolding pc(2) by simp
  have p3: "map_of pc [1, 2] = Some 1"
    using pc(3) [rule_format, of "[1, 2]"] unfolding p2 by simp
  have p4: "map_of pc [2, 1] = Some 1"
    using pc(3) [rule_format, of "[2, 1]"] unfolding p2 by simp
  have p5: "map_of pc [1, 1] = Some 1"
    using pc(3) [rule_format, of "[1, 1]"] unfolding p2 by simp
  have "\<exists>cc. fst (combo ?a) = Inr cc \<and> set (map fst cc) = {[1, 1], [1, 2]} \<and>
          map_of cc [1, 2] = Some 2 \<and> map_of cc [1, 1] = Some 1"
    using c1 c2 c3 c4 by (intro exI [of _ cc] conjI)
  moreover have "\<exists>pc. fst (permutation ?a) = Inr pc \<and>
          set (map fst pc) = {[1, 2], [2, 1], [1, 1]} \<and>
          map_of pc [1, 2] = Some 1 \<and> map_of pc [2, 1] = Some 1 \<and> map_of pc [1, 1] = Some 1"
    using p1 p2 p3 p4 p5 by (intro exI [of _ pc] conjI)
  ultimately show ?thesis by (rule conjI)
qed

end
